theory Spec2Isabelle
  imports Main "HOL-Library.Sublist"
begin

section \<open>Broken-link checker: link utilities (link_utils.ts)\<close>

text \<open>
  A shallow embedding of the pure parts of
  \<^verbatim>\<open>packages/synthetics-sdk-broken-links/src/link_utils.ts\<close>:
  \<^verbatim>\<open>checkStatusPassing\<close>, \<^verbatim>\<open>isHTTPResponse\<close>, \<^verbatim>\<open>shouldGoToBlankPage\<close>,
  \<^verbatim>\<open>parseFollowedLinks\<close> and \<^verbatim>\<open>shuffleAndTruncate\<close>.
  JavaScript numbers that hold status codes, counters and limits are modelled as
  unbounded integers; strings are lists of characters, one per code unit.
\<close>

subsection \<open>Status expectations: \<^verbatim>\<open>checkStatusPassing\<close>\<close>

text \<open>
  Modelled from the spec: the enum \<^verbatim>\<open>ResponseStatusCode_StatusClass\<close>, which the
  source imports from the API package. The function names five of its members (the
  status classes 1xx to 5xx of the specification); every other member (unspecified,
  unrecognised, ...) is the constructor \<open>STATUS_CLASS_OTHER\<close>.
\<close>

datatype ResponseStatusCode_StatusClass =
    STATUS_CLASS_1XX
  | STATUS_CLASS_2XX
  | STATUS_CLASS_3XX
  | STATUS_CLASS_4XX
  | STATUS_CLASS_5XX
  | STATUS_CLASS_OTHER

text \<open>
  Modelled from the spec: the type \<^verbatim>\<open>ResponseStatusCode\<close> of the API package, a
  status expectation with an exact code, a status class, or neither. The source tests
  \<^verbatim>\<open>typeof expected?.status_value === 'number'\<close>, so both fields are options here.
\<close>

record ResponseStatusCode =
  status_value :: "int option"
  status_class :: "ResponseStatusCode_StatusClass option"

text \<open>
  The source reads \<^verbatim>\<open>expected?.status_value\<close> and \<^verbatim>\<open>expected?.status_class\<close>:
  an absent \<^verbatim>\<open>expected\<close> (\<open>None\<close>) reads as \<^verbatim>\<open>undefined\<close> in both places.
\<close>

definition opt_status_value :: "ResponseStatusCode option \<Rightarrow> int option" where
  "opt_status_value expected = (case expected of None \<Rightarrow> None | Some e \<Rightarrow> status_value e)"

definition opt_status_class ::
  "ResponseStatusCode option \<Rightarrow> ResponseStatusCode_StatusClass option" where
  "opt_status_class expected = (case expected of None \<Rightarrow> None | Some e \<Rightarrow> status_class e)"

definition checkStatusPassing :: "ResponseStatusCode option \<Rightarrow> int \<Rightarrow> bool" where
  "checkStatusPassing expected actual =
     (case opt_status_value expected of
        Some v \<Rightarrow> v = actual
      | None \<Rightarrow>
         (case opt_status_class expected of
            Some STATUS_CLASS_1XX \<Rightarrow> actual \<ge> 100 \<and> actual \<le> 199
          | Some STATUS_CLASS_2XX \<Rightarrow> actual \<ge> 200 \<and> actual \<le> 299
          | Some STATUS_CLASS_3XX \<Rightarrow> actual \<ge> 300 \<and> actual \<le> 399
          | Some STATUS_CLASS_4XX \<Rightarrow> actual \<ge> 400 \<and> actual \<le> 499
          | Some STATUS_CLASS_5XX \<Rightarrow> actual \<ge> 500 \<and> actual \<le> 599
          | _ \<Rightarrow> False))"

text \<open>
  The reference definition, in the words of the specification (section 4.1), read
  directly off the two fields of the expectation: an exact value, when the expectation
  carries one, decides alone; otherwise a recognised class \<open>c\<close> of 1..5 passes exactly
  the codes of \<open>[100 * c, 100 * c + 99]\<close>; anything else (an unrecognised class, no
  class, no expectation at all) fails.
\<close>

fun class_number :: "ResponseStatusCode_StatusClass \<Rightarrow> int option" where
  "class_number STATUS_CLASS_1XX = Some 1"
| "class_number STATUS_CLASS_2XX = Some 2"
| "class_number STATUS_CLASS_3XX = Some 3"
| "class_number STATUS_CLASS_4XX = Some 4"
| "class_number STATUS_CLASS_5XX = Some 5"
| "class_number STATUS_CLASS_OTHER = None"

fun isPassing_spec :: "ResponseStatusCode option \<Rightarrow> int \<Rightarrow> bool" where
  "isPassing_spec None actual = False"
| "isPassing_spec (Some \<lparr>status_value = Some v, status_class = k\<rparr>) actual = (actual = v)"
| "isPassing_spec (Some \<lparr>status_value = None, status_class = None\<rparr>) actual = False"
| "isPassing_spec (Some \<lparr>status_value = None, status_class = Some k\<rparr>) actual =
     (case class_number k of
        Some c \<Rightarrow> 100 * c \<le> actual \<and> actual \<le> 100 * c + 99
      | None \<Rightarrow> False)"

subsection \<open>The response type guard: \<^verbatim>\<open>isHTTPResponse\<close>\<close>

text \<open>
  The guard inspects a run-time value. A value is \<^verbatim>\<open>null\<close>, \<^verbatim>\<open>undefined\<close>, a
  primitive, a function, or an object; an object carries the class it was built from
  and the names of the properties the \<^verbatim>\<open>in\<close> operator finds on it (own or
  inherited).
\<close>

datatype js_class = HTTPResponseClass | ErrorClass | PlainObject

datatype js_value =
    JSNull
  | JSUndefined
  | JSBoolean bool
  | JSNumber int
  | JSString string
  | JSFunction "string list"
  | JSObject js_class "string list"

datatype js_error = TypeError

fun typeof :: "js_value \<Rightarrow> string" where
  "typeof JSNull = ''object''"
| "typeof JSUndefined = ''undefined''"
| "typeof (JSBoolean b) = ''boolean''"
| "typeof (JSNumber n) = ''number''"
| "typeof (JSString s) = ''string''"
| "typeof (JSFunction ps) = ''function''"
| "typeof (JSObject c ps) = ''object''"

text \<open>\<^verbatim>\<open>key in v\<close>: a TypeError unless \<open>v\<close> is an object or a function.\<close>

fun js_in :: "string \<Rightarrow> js_value \<Rightarrow> js_error + bool" where
  "js_in key (JSObject c ps) = Inr (key \<in> set ps)"
| "js_in key (JSFunction ps) = Inr (key \<in> set ps)"
| "js_in key v = Inl TypeError"

text \<open>
  \<^verbatim>\<open>response !== null && typeof response === 'object' && 'status' in response\<close>,
  with the short circuit of \<^verbatim>\<open>&&\<close> written out.
\<close>

definition isHTTPResponse :: "js_value \<Rightarrow> js_error + bool" where
  "isHTTPResponse response =
     (if response \<noteq> JSNull then
        (if typeof response = ''object'' then js_in ''status'' response else Inr False)
      else Inr False)"

subsection \<open>Fragment navigation: \<^verbatim>\<open>shouldGoToBlankPage\<close>\<close>

text \<open>
  The three string methods the function calls, as ECMAScript defines them.
  \<^verbatim>\<open>s.includes(sub)\<close>: \<open>sub\<close> occurs in \<open>s\<close> at some position, searched from the left.
\<close>

definition starts_with :: "string \<Rightarrow> string \<Rightarrow> bool" where
  "starts_with s sub = (take (length sub) s = sub)"

fun js_includes :: "string \<Rightarrow> string \<Rightarrow> bool" where
  "js_includes [] sub = (sub = [])"
| "js_includes (c # cs) sub = (starts_with (c # cs) sub \<or> js_includes cs sub)"

text \<open>
  \<^verbatim>\<open>s.indexOf(sub)\<close>: the first position at which \<open>sub\<close> occurs, or \<open>-1\<close>.
  \<open>indexOf_from\<close> carries the position of the part of the string still to search.
\<close>

fun indexOf_from :: "string \<Rightarrow> string \<Rightarrow> int \<Rightarrow> int" where
  "indexOf_from [] sub i = (if sub = [] then i else - 1)"
| "indexOf_from (c # cs) sub i =
     (if starts_with (c # cs) sub then i else indexOf_from cs sub (i + 1))"

definition js_indexOf :: "string \<Rightarrow> string \<Rightarrow> int" where
  "js_indexOf s sub = indexOf_from s sub 0"

text \<open>
  \<^verbatim>\<open>s.substring(start, end)\<close>: both bounds are clamped to \<open>[0, length s]\<close> and
  swapped when the first is the larger one.
\<close>

definition js_substring :: "string \<Rightarrow> int \<Rightarrow> int \<Rightarrow> string" where
  "js_substring s start end' =
     (let len = int (length s);
          finalStart = min (max start 0) len;
          finalEnd = min (max end' 0) len;
          from = min finalStart finalEnd;
          to = max finalStart finalEnd
      in take (nat (to - from)) (drop (nat from) s))"

definition shouldGoToBlankPage :: "string \<Rightarrow> string \<Rightarrow> bool" where
  "shouldGoToBlankPage current_url target_url =
     (js_includes target_url ''#'' \<and>
      js_includes current_url (js_substring target_url 0 (js_indexOf target_url ''#'')))"

text \<open>
  The specification's condition, in its words: the two URLs differ only by a fragment
  identifier on the same base URL. The base of a URL is its text before the first
  \<open>#\<close>.
\<close>

definition url_base :: "string \<Rightarrow> string" where
  "url_base u = takeWhile (\<lambda>x. x \<noteq> CHR ''#'') u"

definition spec_differ_only_by_fragment :: "string \<Rightarrow> string \<Rightarrow> bool" where
  "spec_differ_only_by_fragment current_url target_url =
     (url_base current_url = url_base target_url \<and> current_url \<noteq> target_url)"

subsection \<open>Link selection: \<^verbatim>\<open>shuffleAndTruncate\<close>\<close>

text \<open>The interface \<^verbatim>\<open>LinkIntermediate\<close> of the source.\<close>

record LinkIntermediate =
  target_url :: string
  anchor_text :: string
  html_element :: string

text \<open>
  Modelled from the spec: the enum
  \<^verbatim>\<open>BrokenLinksResultV1_BrokenLinkCheckerOptions_LinkOrder\<close> of the API package, with
  the two orders of the specification. The source names \<open>RANDOM\<close> only and treats every
  other order as sequential.
\<close>

datatype LinkOrder = SEQUENTIAL | RANDOM

text \<open>
  \<^verbatim>\<open>xs.slice(start, end)\<close> as ECMAScript defines it: a negative bound counts from the
  end of the array, and both bounds are clamped to \<open>[0, length xs]\<close>.
\<close>

definition js_slice :: "'a list \<Rightarrow> int \<Rightarrow> int \<Rightarrow> 'a list" where
  "js_slice xs start end' =
     (let len = int (length xs);
          k = (if start < 0 then max (len + start) 0 else min start len);
          final = (if end' < 0 then max (len + end') 0 else min end' len);
          count = max (final - k) 0
      in take (nat count) (drop (nat k) xs))"

text \<open>
  \<^verbatim>\<open>[...links].sort(() => Math.random() - 0.5)\<close>: the comparator ignores the two elements
  it is given, so the sorted array is a function of the array and of the successive
  results of the comparator. The sorting algorithm is the JavaScript engine's and is
  not part of the source: it is the parameter \<open>engine_sort\<close>. A draw is \<open>True\<close> when
  \<^verbatim>\<open>Math.random() - 0.5\<close> is negative, which an ideal \<^verbatim>\<open>Math.random\<close> makes a fair coin;
  \<open>draws\<close> are the results of the successive calls.

  The elements are never inspected, so the function is polymorphic in them; the source
  has \<open>LinkIntermediate\<close> in their place.
\<close>

type_synonym 'a engine_sort = "bool list \<Rightarrow> 'a list \<Rightarrow> 'a list"

definition shuffleAndTruncate ::
  "'a engine_sort \<Rightarrow> bool list \<Rightarrow> 'a list \<Rightarrow> int \<Rightarrow> LinkOrder \<Rightarrow> 'a list" where
  "shuffleAndTruncate engine_sort draws links link_limit link_order =
     (let linksToFollow =
            (if link_order = RANDOM then engine_sort draws links else links)
      in js_slice linksToFollow 0 (link_limit - 1))"

text \<open>
  The same function over a store of arrays, to follow which array each statement reads
  and writes. An address is an index into the store; \<open>alloc\<close> puts a new array behind
  all the others. The spread \<^verbatim>\<open>[...links]\<close> allocates a copy, \<^verbatim>\<open>sort\<close> overwrites the
  array it is called on (the copy), \<^verbatim>\<open>slice\<close> allocates the result.
\<close>

type_synonym 'a store = "'a list list"

definition alloc :: "'a store \<Rightarrow> 'a list \<Rightarrow> nat \<times> 'a store" where
  "alloc h arr = (length h, h @ [arr])"

definition shuffleAndTruncate_store ::
  "'a engine_sort \<Rightarrow> bool list \<Rightarrow> 'a store \<Rightarrow> nat \<Rightarrow> int \<Rightarrow> LinkOrder \<Rightarrow> nat \<times> 'a store" where
  "shuffleAndTruncate_store engine_sort draws h links link_limit link_order =
     (let (copy, h1) = alloc h (h ! links);
          h2 = (if link_order = RANDOM then h1[copy := engine_sort draws (h1 ! copy)]
                else h1);
          linksToFollow = copy
      in alloc h2 (js_slice (h2 ! linksToFollow) 0 (link_limit - 1)))"

text \<open>
  One sorting algorithm an engine may run, to evaluate the model on concrete inputs: an
  insertion sort that asks the comparator, draw by draw, whether the new element goes
  before the next element of the sorted part.
\<close>

fun insert_by_draws :: "'a \<Rightarrow> 'a list \<Rightarrow> bool list \<Rightarrow> 'a list \<times> bool list" where
  "insert_by_draws x [] ds = ([x], ds)"
| "insert_by_draws x (y # ys) [] = (x # y # ys, [])"
| "insert_by_draws x (y # ys) (d # ds) =
     (if d then (x # y # ys, ds)
      else (case insert_by_draws x ys ds of (zs, ds') \<Rightarrow> (y # zs, ds')))"

fun insertion_by_draws :: "'a list \<Rightarrow> bool list \<Rightarrow> 'a list \<times> bool list" where
  "insertion_by_draws [] ds = ([], ds)"
| "insertion_by_draws (x # xs) ds =
     (case insertion_by_draws xs ds of (sorted_part, ds') \<Rightarrow> insert_by_draws x sorted_part ds')"

definition insertion_engine :: "'a engine_sort" where
  "insertion_engine draws xs = fst (insertion_by_draws xs draws)"

subsection \<open>Aggregation: \<^verbatim>\<open>parseFollowedLinks\<close>\<close>

text \<open>
  Modelled from the spec: the type \<^verbatim>\<open>BrokenLinksResultV1_SyntheticLinkResult\<close> of the
  API package, the result of one link: the identity fields of the link, the status code
  (absent on an unreachable link), the two flags and the two time stamps.
\<close>

record SyntheticLinkResult = LinkIntermediate +
  status_code :: "int option"
  link_passed :: bool
  is_origin :: bool
  link_start_time :: string
  link_end_time :: string

text \<open>
  Modelled from the spec: the options type of the API package, with the two settings
  that the functions here are given.
\<close>

record BrokenLinkCheckerOptions =
  link_limit :: int
  link_order :: LinkOrder

text \<open>
  Modelled from the spec: the type \<^verbatim>\<open>BrokenLinksResultV1\<close> of the API package, the
  aggregate report. The source reads every counter as \<^verbatim>\<open>(counter ?? 0)\<close>, so the
  counters are options here. The source initialises \<^verbatim>\<open>options\<close> and
  \<^verbatim>\<open>origin_link_result\<close> with the empty object \<^verbatim>\<open>{}\<close>: that placeholder is \<open>None\<close>.
\<close>

record BrokenLinksResultV1 =
  link_count :: "nat option"
  passing_link_count :: "nat option"
  failing_link_count :: "nat option"
  unreachable_count :: "nat option"
  status_2xx_count :: "nat option"
  status_3xx_count :: "nat option"
  status_4xx_count :: "nat option"
  status_5xx_count :: "nat option"
  options :: "BrokenLinkCheckerOptions option"
  origin_link_result :: "SyntheticLinkResult option"
  followed_link_results :: "SyntheticLinkResult list"

text \<open>\<^verbatim>\<open>x ?? d\<close>: the value of \<open>x\<close>, or \<open>d\<close> when \<open>x\<close> is absent.\<close>

definition nullish :: "'a option \<Rightarrow> 'a \<Rightarrow> 'a" where
  "nullish x d = (case x of None \<Rightarrow> d | Some v \<Rightarrow> v)"

text \<open>
  \<^verbatim>\<open>Math.floor(link.status_code! / 100)\<close>: on an absent status code the division gives
  \<^verbatim>\<open>NaN\<close>, which no \<^verbatim>\<open>case\<close> label equals; that is \<open>None\<close>. On an integer, the floor
  of the quotient is the integer division that rounds down.
\<close>

definition status_hundreds :: "int option \<Rightarrow> int option" where
  "status_hundreds code = (case code of None \<Rightarrow> None | Some c \<Rightarrow> Some (c div 100))"

definition initial_result :: BrokenLinksResultV1 where
  "initial_result =
     \<lparr> link_count = Some 0,
       passing_link_count = Some 0,
       failing_link_count = Some 0,
       unreachable_count = Some 0,
       status_2xx_count = Some 0,
       status_3xx_count = Some 0,
       status_4xx_count = Some 0,
       status_5xx_count = Some 0,
       options = None,
       origin_link_result = None,
       followed_link_results = [] \<rparr>"

text \<open>The body of the \<^verbatim>\<open>for\<close> loop, statement by statement.\<close>

definition route_link :: "BrokenLinksResultV1 \<Rightarrow> SyntheticLinkResult \<Rightarrow> BrokenLinksResultV1" where
  "route_link r link =
     (if is_origin link then r\<lparr>origin_link_result := Some link\<rparr>
      else r\<lparr>followed_link_results := followed_link_results r @ [link]\<rparr>)"

definition count_passed :: "BrokenLinksResultV1 \<Rightarrow> SyntheticLinkResult \<Rightarrow> BrokenLinksResultV1" where
  "count_passed r link =
     (if link_passed link
      then r\<lparr>passing_link_count := Some (nullish (passing_link_count r) 0 + 1)\<rparr>
      else r\<lparr>failing_link_count := Some (nullish (failing_link_count r) 0 + 1)\<rparr>)"

definition count_status :: "BrokenLinksResultV1 \<Rightarrow> SyntheticLinkResult \<Rightarrow> BrokenLinksResultV1" where
  "count_status r link =
     (let k = status_hundreds (status_code link) in
      if k = Some 2 then r\<lparr>status_2xx_count := Some (nullish (status_2xx_count r) 0 + 1)\<rparr>
      else if k = Some 3 then r\<lparr>status_3xx_count := Some (nullish (status_3xx_count r) 0 + 1)\<rparr>
      else if k = Some 4 then r\<lparr>status_4xx_count := Some (nullish (status_4xx_count r) 0 + 1)\<rparr>
      else if k = Some 5 then r\<lparr>status_5xx_count := Some (nullish (status_5xx_count r) 0 + 1)\<rparr>
      else r\<lparr>unreachable_count := Some (nullish (unreachable_count r) 0 + 1)\<rparr>)"

definition loop_body :: "BrokenLinksResultV1 \<Rightarrow> SyntheticLinkResult \<Rightarrow> BrokenLinksResultV1" where
  "loop_body r link =
     (let r1 = route_link r link;
          r2 = r1\<lparr>link_count := Some (nullish (link_count r1) 0 + 1)\<rparr>;
          r3 = count_passed r2 link
      in count_status r3 link)"

fun for_each_link ::
  "BrokenLinksResultV1 \<Rightarrow> SyntheticLinkResult list \<Rightarrow> BrokenLinksResultV1" where
  "for_each_link r [] = r"
| "for_each_link r (link # rest) = for_each_link (loop_body r link) rest"

definition parseFollowedLinks :: "SyntheticLinkResult list \<Rightarrow> BrokenLinksResultV1" where
  "parseFollowedLinks followed_links = for_each_link initial_result followed_links"

text \<open>A link result with the given status code and flags, for running the model.\<close>

definition sample_result :: "int option \<Rightarrow> bool \<Rightarrow> bool \<Rightarrow> SyntheticLinkResult" where
  "sample_result code passed origin =
     \<lparr> target_url = ''https://a/x'', anchor_text = ''x'', html_element = ''a'',
       status_code = code, link_passed = passed, is_origin = origin,
       link_start_time = ''t0'', link_end_time = ''t1'' \<rparr>"

section \<open>Properties\<close>

subsection \<open>\<^verbatim>\<open>checkStatusPassing\<close>\<close>

lemma checkStatusPassing_exact:
  "checkStatusPassing (Some \<lparr>status_value = Some v, status_class = k\<rparr>) actual = (actual = v)"
  by (auto simp: checkStatusPassing_def opt_status_value_def)

lemma checkStatusPassing_class:
  "checkStatusPassing (Some \<lparr>status_value = None, status_class = Some STATUS_CLASS_1XX\<rparr>) actual
     = (100 \<le> actual \<and> actual \<le> 199)"
  "checkStatusPassing (Some \<lparr>status_value = None, status_class = Some STATUS_CLASS_2XX\<rparr>) actual
     = (200 \<le> actual \<and> actual \<le> 299)"
  "checkStatusPassing (Some \<lparr>status_value = None, status_class = Some STATUS_CLASS_3XX\<rparr>) actual
     = (300 \<le> actual \<and> actual \<le> 399)"
  "checkStatusPassing (Some \<lparr>status_value = None, status_class = Some STATUS_CLASS_4XX\<rparr>) actual
     = (400 \<le> actual \<and> actual \<le> 499)"
  "checkStatusPassing (Some \<lparr>status_value = None, status_class = Some STATUS_CLASS_5XX\<rparr>) actual
     = (500 \<le> actual \<and> actual \<le> 599)"
  by (simp_all add: checkStatusPassing_def opt_status_value_def opt_status_class_def)

lemma checkStatusPassing_unset:
  "checkStatusPassing (Some \<lparr>status_value = None, status_class = Some STATUS_CLASS_OTHER\<rparr>) actual
     = False"
  "checkStatusPassing (Some \<lparr>status_value = None, status_class = None\<rparr>) actual = False"
  "checkStatusPassing None actual = False"
  by (simp_all add: checkStatusPassing_def opt_status_value_def opt_status_class_def)

lemma checkStatusPassing_is_reference:
  "checkStatusPassing expected actual = isPassing_spec expected actual"
proof (cases expected)
  case None
  then show ?thesis by (simp add: checkStatusPassing_unset)
next
  case (Some e)
  obtain sv sc where e: "e = \<lparr>status_value = sv, status_class = sc\<rparr>"
    by (cases e) simp
  show ?thesis
  proof (cases sv)
    case exact: (Some v)
    with Some e show ?thesis by (simp add: checkStatusPassing_exact)
  next
    case novalue: None
    show ?thesis
    proof (cases sc)
      case None
      with Some e novalue show ?thesis by (simp add: checkStatusPassing_unset)
    next
      case cls: (Some k)
      with Some e novalue show ?thesis
        by (cases k) (simp_all add: checkStatusPassing_class checkStatusPassing_unset)
    qed
  qed
qed

text \<open>
  Claim C7. For every status expectation (also an absent one) and every integer
  status code, \<^verbatim>\<open>checkStatusPassing\<close> equals the reference definition, which reads
  the two fields of the expectation itself. Field by field: an expectation whose
  \<open>status_value\<close> is \<open>v\<close> passes exactly the code \<open>v\<close>, whatever its \<open>status_class\<close>
  (the exact code wins over a class that is set as well); with no \<open>status_value\<close>, the
  class \<open>c\<close>XX passes exactly the codes from \<open>100 * c\<close> to \<open>100 * c + 99\<close>, for \<open>c\<close> from
  1 to 5; an unrecognised class, no class and no expectation pass nothing. So the
  expectation of 200 with the class 4XX rejects 404 and accepts 200.
\<close>

theorem checkStatusPassing_refines_spec:
  "checkStatusPassing expected actual = isPassing_spec expected actual
   \<and> checkStatusPassing (Some \<lparr>status_value = Some v, status_class = k\<rparr>) actual = (actual = v)
   \<and> checkStatusPassing (Some \<lparr>status_value = None, status_class = Some STATUS_CLASS_1XX\<rparr>) actual
       = (100 \<le> actual \<and> actual \<le> 199)
   \<and> checkStatusPassing (Some \<lparr>status_value = None, status_class = Some STATUS_CLASS_2XX\<rparr>) actual
       = (200 \<le> actual \<and> actual \<le> 299)
   \<and> checkStatusPassing (Some \<lparr>status_value = None, status_class = Some STATUS_CLASS_3XX\<rparr>) actual
       = (300 \<le> actual \<and> actual \<le> 399)
   \<and> checkStatusPassing (Some \<lparr>status_value = None, status_class = Some STATUS_CLASS_4XX\<rparr>) actual
       = (400 \<le> actual \<and> actual \<le> 499)
   \<and> checkStatusPassing (Some \<lparr>status_value = None, status_class = Some STATUS_CLASS_5XX\<rparr>) actual
       = (500 \<le> actual \<and> actual \<le> 599)
   \<and> checkStatusPassing (Some \<lparr>status_value = None, status_class = Some STATUS_CLASS_OTHER\<rparr>) actual
       = False
   \<and> checkStatusPassing (Some \<lparr>status_value = None, status_class = None\<rparr>) actual = False
   \<and> checkStatusPassing None actual = False
   \<and> checkStatusPassing (Some \<lparr>status_value = Some 200, status_class = Some STATUS_CLASS_4XX\<rparr>) 404
       = False
   \<and> checkStatusPassing (Some \<lparr>status_value = Some 200, status_class = Some STATUS_CLASS_4XX\<rparr>) 200
       = True"
proof -
  have both404: "checkStatusPassing
      (Some \<lparr>status_value = Some 200, status_class = Some STATUS_CLASS_4XX\<rparr>) 404 = False"
    by (simp add: checkStatusPassing_exact)
  have both200: "checkStatusPassing
      (Some \<lparr>status_value = Some 200, status_class = Some STATUS_CLASS_4XX\<rparr>) 200 = True"
    by (simp add: checkStatusPassing_exact)
  show ?thesis
    by (intro conjI checkStatusPassing_is_reference checkStatusPassing_exact
        checkStatusPassing_class checkStatusPassing_unset both404 both200)
qed

subsection \<open>\<^verbatim>\<open>shouldGoToBlankPage\<close>\<close>

text \<open>The string methods, characterised: \<^verbatim>\<open>includes\<close> is the sublist relation.\<close>

lemma starts_with_prefix: "starts_with s sub = prefix sub s"
proof
  assume "starts_with s sub"
  then have "take (length sub) s = sub" by (simp add: starts_with_def)
  then show "prefix sub s" by (metis take_is_prefix)
next
  assume "prefix sub s"
  then obtain r where "s = sub @ r" by (auto simp: prefix_def)
  then show "starts_with s sub" by (simp add: starts_with_def)
qed

lemma js_includes_sublist: "js_includes s sub = sublist sub s"
  by (induction s) (simp_all add: starts_with_prefix sublist_Cons_right)

lemma starts_with_hash: "starts_with (c # cs) ''#'' = (c = CHR ''#'')"
  by (simp add: starts_with_def)

lemma js_includes_hash: "js_includes t ''#'' = (CHR ''#'' \<in> set t)"
  by (induction t) (auto simp: starts_with_hash)

lemma indexOf_from_hash:
  "CHR ''#'' \<in> set t \<Longrightarrow>
   indexOf_from t ''#'' i = i + int (length (takeWhile (\<lambda>x. x \<noteq> CHR ''#'') t))"
  by (induction t arbitrary: i) (auto simp: starts_with_hash)

lemma js_substring_take: "n \<le> length s \<Longrightarrow> js_substring s 0 (int n) = take n s"
  by (simp add: js_substring_def Let_def min_def max_def)

lemma take_length_takeWhile: "take (length (takeWhile P xs)) xs = takeWhile P xs"
  by (induction xs) auto

lemma base_of_target:
  assumes "CHR ''#'' \<in> set t"
  shows "js_substring t 0 (js_indexOf t ''#'') = url_base t"
proof -
  have "js_indexOf t ''#'' = int (length (url_base t))"
    using assms by (simp add: js_indexOf_def indexOf_from_hash url_base_def)
  moreover have "length (url_base t) \<le> length t"
    by (simp add: url_base_def length_takeWhile_le)
  ultimately show ?thesis
    by (simp add: js_substring_take take_length_takeWhile url_base_def)
qed

lemma shouldGoToBlankPage_char:
  "shouldGoToBlankPage c t = (CHR ''#'' \<in> set t \<and> sublist (url_base t) c)"
proof (cases "CHR ''#'' \<in> set t")
  case True
  then have "js_includes t ''#''" by (simp add: js_includes_hash)
  moreover have "js_includes c (js_substring t 0 (js_indexOf t ''#'')) = sublist (url_base t) c"
    using True by (simp add: base_of_target js_includes_sublist)
  ultimately show ?thesis
    using True by (simp add: shouldGoToBlankPage_def)
next
  case False
  then show ?thesis
    by (simp add: shouldGoToBlankPage_def js_includes_hash)
qed

lemma url_base_append_hash: "prefix (url_base (b @ CHR ''#'' # f)) b"
proof (cases "\<forall>x\<in>set b. x \<noteq> CHR ''#''")
  case True
  then show ?thesis by (simp add: url_base_def)
next
  case False
  then obtain x where "x \<in> set b" "\<not> x \<noteq> CHR ''#''" by blast
  then have "url_base (b @ CHR ''#'' # f) = takeWhile (\<lambda>x. x \<noteq> CHR ''#'') b"
    unfolding url_base_def by (rule takeWhile_append1)
  then show ?thesis by (simp add: takeWhile_is_prefix)
qed

lemma same_base_blank:
  "shouldGoToBlankPage (p @ b @ s) (b @ CHR ''#'' # f)"
proof -
  have "sublist (url_base (b @ CHR ''#'' # f)) b"
    using url_base_append_hash by (rule prefix_imp_sublist)
  then have "sublist (url_base (b @ CHR ''#'' # f)) (p @ b @ s)"
    by (meson sublist_appendI sublist_order.order_trans)
  then show ?thesis by (simp add: shouldGoToBlankPage_char)
qed

lemma blank_page_examples:
  "shouldGoToBlankPage ''https://a/x#1'' ''https://a/x#2''"
  "\<not> shouldGoToBlankPage ''https://a/x'' ''https://b/y''"
  by (simp_all add: shouldGoToBlankPage_def js_indexOf_def js_substring_def starts_with_def)

text \<open>
  Claim C6, as stated, fails: the source tests whether the current URL \<^emph>\<open>includes\<close> the
  target's base anywhere, so it also answers true for URLs on different bases. From
  \<^verbatim>\<open>https://a/xyz\<close> to \<^verbatim>\<open>https://a/x#1\<close> the bases differ, and the result is true.
\<close>

theorem shouldGoToBlankPage_different_base_counterexample:
  "shouldGoToBlankPage ''https://a/xyz'' ''https://a/x#1''
   \<and> url_base ''https://a/xyz'' \<noteq> url_base ''https://a/x#1''
   \<and> \<not> spec_differ_only_by_fragment ''https://a/xyz'' ''https://a/x#1''"
  by (simp add: shouldGoToBlankPage_def js_indexOf_def js_substring_def starts_with_def
      spec_differ_only_by_fragment_def url_base_def)

text \<open>
  Claim C6, amended. \<^verbatim>\<open>shouldGoToBlankPage\<close> is true exactly when the target contains
  \<open>#\<close> and the target's text before its first \<open>#\<close> occurs somewhere inside the current
  URL. So it is true whenever the target is a base \<open>b\<close> followed by a fragment and the
  current URL contains \<open>b\<close> (in particular the same base with another fragment, as from
  \<^verbatim>\<open>https://a/x#1\<close> to \<^verbatim>\<open>https://a/x#2\<close>), and it is false from \<^verbatim>\<open>https://a/x\<close> to
  \<^verbatim>\<open>https://b/y\<close>.
\<close>

theorem shouldGoToBlankPage_iff_base_occurs:
  "shouldGoToBlankPage current target =
     (CHR ''#'' \<in> set target \<and> sublist (url_base target) current)
   \<and> shouldGoToBlankPage (b @ f1) (b @ CHR ''#'' # f2)
   \<and> shouldGoToBlankPage (p @ b @ s) (b @ CHR ''#'' # f2)
   \<and> shouldGoToBlankPage ''https://a/x#1'' ''https://a/x#2''
   \<and> \<not> shouldGoToBlankPage ''https://a/x'' ''https://b/y''"
proof -
  have "shouldGoToBlankPage ([] @ b @ f1) (b @ CHR ''#'' # f2)"
    by (rule same_base_blank)
  then have "shouldGoToBlankPage (b @ f1) (b @ CHR ''#'' # f2)"
    by simp
  then show ?thesis
    using shouldGoToBlankPage_char [of current target]
      same_base_blank [of p b s f2] blank_page_examples
    by blast
qed

subsection \<open>\<^verbatim>\<open>parseFollowedLinks\<close>\<close>

text \<open>What one pass of the loop body does to each field of the report.\<close>

lemma nullish_simps [simp]: "nullish None d = d" "nullish (Some v) d = v"
  by (simp_all add: nullish_def)

lemmas loop_body_unfold = loop_body_def Let_def count_status_def count_passed_def route_link_def

lemma loop_body_link_count: "link_count (loop_body r l) = Some (nullish (link_count r) 0 + 1)"
  by (simp add: loop_body_unfold)

lemma loop_body_passing:
  "passing_link_count (loop_body r l) =
     (if link_passed l then Some (nullish (passing_link_count r) 0 + 1) else passing_link_count r)"
  by (simp add: loop_body_unfold)

lemma loop_body_failing:
  "failing_link_count (loop_body r l) =
     (if \<not> link_passed l then Some (nullish (failing_link_count r) 0 + 1) else failing_link_count r)"
  by (simp add: loop_body_unfold)

lemma loop_body_followed:
  "followed_link_results (loop_body r l) =
     (if is_origin l then followed_link_results r else followed_link_results r @ [l])"
  by (simp add: loop_body_unfold)

lemma loop_body_origin:
  "origin_link_result (loop_body r l) = (if is_origin l then Some l else origin_link_result r)"
  by (simp add: loop_body_unfold)

lemma loop_body_2xx:
  "status_2xx_count (loop_body r l) =
     (if status_hundreds (status_code l) = Some 2
      then Some (nullish (status_2xx_count r) 0 + 1) else status_2xx_count r)"
  by (simp add: loop_body_unfold)

lemma loop_body_3xx:
  "status_3xx_count (loop_body r l) =
     (if status_hundreds (status_code l) = Some 3
      then Some (nullish (status_3xx_count r) 0 + 1) else status_3xx_count r)"
  by (simp add: loop_body_unfold)

lemma loop_body_4xx:
  "status_4xx_count (loop_body r l) =
     (if status_hundreds (status_code l) = Some 4
      then Some (nullish (status_4xx_count r) 0 + 1) else status_4xx_count r)"
  by (simp add: loop_body_unfold)

lemma loop_body_5xx:
  "status_5xx_count (loop_body r l) =
     (if status_hundreds (status_code l) = Some 5
      then Some (nullish (status_5xx_count r) 0 + 1) else status_5xx_count r)"
  by (simp add: loop_body_unfold)

lemma loop_body_unreachable:
  "unreachable_count (loop_body r l) =
     (if status_hundreds (status_code l) \<notin> {Some 2, Some 3, Some 4, Some 5}
      then Some (nullish (unreachable_count r) 0 + 1) else unreachable_count r)"
  by (simp add: loop_body_unfold)

text \<open>A counter that the body raises by one on the links satisfying \<open>P\<close>, and leaves alone on
  the others, ends as the number of links satisfying \<open>P\<close>.\<close>

lemma for_each_link_counter:
  fixes f :: "BrokenLinksResultV1 \<Rightarrow> nat option"
  assumes step: "\<And>r l. f (loop_body r l) = (if P l then Some (nullish (f r) 0 + 1) else f r)"
  shows "f (for_each_link r ls) =
           (if filter P ls = [] then f r else Some (nullish (f r) 0 + length (filter P ls)))"
proof (induction ls arbitrary: r)
  case Nil
  show ?case by simp
next
  case (Cons l ls)
  show ?case
  proof (cases "P l")
    case True
    then show ?thesis by (simp add: Cons.IH step)
  next
    case False
    then show ?thesis by (simp add: Cons.IH step)
  qed
qed

lemma parse_counter:
  fixes f :: "BrokenLinksResultV1 \<Rightarrow> nat option"
  assumes step: "\<And>r l. f (loop_body r l) = (if P l then Some (nullish (f r) 0 + 1) else f r)"
    and init: "f initial_result = Some 0"
  shows "f (parseFollowedLinks ls) = Some (length (filter P ls))"
  unfolding parseFollowedLinks_def
  by (simp add: for_each_link_counter [where f = f and P = P, OF step] init)

lemma for_each_link_followed:
  "followed_link_results (for_each_link r ls) =
     followed_link_results r @ filter (\<lambda>l. \<not> is_origin l) ls"
  by (induction ls arbitrary: r) (simp_all add: loop_body_followed)

lemma for_each_link_origin:
  "origin_link_result (for_each_link r ls) =
     (if filter is_origin ls = [] then origin_link_result r
      else Some (last (filter is_origin ls)))"
  by (induction ls arbitrary: r) (simp_all add: loop_body_origin)

lemma initial_simps:
  "link_count initial_result = Some 0"
  "passing_link_count initial_result = Some 0"
  "failing_link_count initial_result = Some 0"
  "unreachable_count initial_result = Some 0"
  "status_2xx_count initial_result = Some 0"
  "status_3xx_count initial_result = Some 0"
  "status_4xx_count initial_result = Some 0"
  "status_5xx_count initial_result = Some 0"
  "origin_link_result initial_result = None"
  "followed_link_results initial_result = []"
  by (simp_all add: initial_result_def)

lemma parse_link_count: "link_count (parseFollowedLinks ls) = Some (length ls)"
  using parse_counter [where f = link_count and P = "\<lambda>l. True" and ls = ls]
  by (simp add: loop_body_link_count initial_simps)

lemma parse_passing:
  "passing_link_count (parseFollowedLinks ls) = Some (length (filter link_passed ls))"
  by (rule parse_counter) (simp_all add: loop_body_passing initial_simps)

lemma parse_failing:
  "failing_link_count (parseFollowedLinks ls) = Some (length (filter (\<lambda>l. \<not> link_passed l) ls))"
  by (rule parse_counter) (simp_all add: loop_body_failing initial_simps)

lemma length_filter_split: "length xs = length (filter P xs) + length (filter (\<lambda>x. \<not> P x) xs)"
  by (induction xs) simp_all

text \<open>
  Claim C5. For every sequence of link results, the empty one and those without an
  origin link included, the report has \<open>link_count = passing_link_count +
  failing_link_count\<close>: \<open>link_count\<close> is the number of links, \<open>passing_link_count\<close> the
  number of links whose \<open>link_passed\<close> is true, \<open>failing_link_count\<close> the number of the
  others.
\<close>

theorem parseFollowedLinks_count_invariant:
  "link_count (parseFollowedLinks ls) = Some (length ls)
   \<and> passing_link_count (parseFollowedLinks ls) = Some (length (filter link_passed ls))
   \<and> failing_link_count (parseFollowedLinks ls) = Some (length (filter (\<lambda>l. \<not> link_passed l) ls))
   \<and> (\<exists>n p f. link_count (parseFollowedLinks ls) = Some n
          \<and> passing_link_count (parseFollowedLinks ls) = Some p
          \<and> failing_link_count (parseFollowedLinks ls) = Some f
          \<and> n = p + f)
   \<and> link_count (parseFollowedLinks []) = Some 0
   \<and> passing_link_count (parseFollowedLinks []) = Some 0
   \<and> failing_link_count (parseFollowedLinks []) = Some 0"
  using length_filter_split [of ls link_passed]
  by (simp add: parse_link_count parse_passing parse_failing)

text \<open>
  Claim C8. The followed link results of the report are the input elements whose
  \<open>is_origin\<close> is false, in the input's order; the origin link result is the last input
  element whose \<open>is_origin\<close> is true, and the empty placeholder (\<open>None\<close>) when there is
  none.
\<close>

theorem parseFollowedLinks_routes_by_is_origin:
  "followed_link_results (parseFollowedLinks ls) = filter (\<lambda>l. \<not> is_origin l) ls
   \<and> origin_link_result (parseFollowedLinks ls) =
       (if filter is_origin ls = [] then None else Some (last (filter is_origin ls)))"
  by (simp add: parseFollowedLinks_def for_each_link_followed for_each_link_origin initial_simps)


lemma incremented_neq [simp]:
  "Some (nullish x 0 + 1) \<noteq> (x :: nat option)"
  "x \<noteq> Some (nullish x 0 + 1)"
  "Some (Suc (nullish x 0)) \<noteq> x"
  "x \<noteq> Some (Suc (nullish x 0))"
  by (cases x; simp)+

lemmas loop_body_status =
  loop_body_2xx loop_body_3xx loop_body_4xx loop_body_5xx loop_body_unreachable

lemma one_status_counter_step:
  "(let r' = loop_body r link;
        k = status_hundreds (status_code link);
        incremented = (\<lambda>f. f r' = Some (nullish (f r) 0 + 1));
        untouched = (\<lambda>f. f r' = f r);
        counters = [status_2xx_count, status_3xx_count, status_4xx_count,
                    status_5xx_count, unreachable_count]
    in length (filter incremented counters) = 1
       \<and> length (filter untouched counters) = 4
       \<and> incremented status_2xx_count = (k = Some 2)
       \<and> incremented status_3xx_count = (k = Some 3)
       \<and> incremented status_4xx_count = (k = Some 4)
       \<and> incremented status_5xx_count = (k = Some 5)
       \<and> incremented unreachable_count = (k \<notin> {Some 2, Some 3, Some 4, Some 5}))"
proof -
  consider "status_hundreds (status_code link) = Some 2"
    | "status_hundreds (status_code link) = Some 3"
    | "status_hundreds (status_code link) = Some 4"
    | "status_hundreds (status_code link) = Some 5"
    | "status_hundreds (status_code link) \<notin> {Some 2, Some 3, Some 4, Some 5}"
    by blast
  then show ?thesis
  proof cases
    case 1 then show ?thesis by (simp add: Let_def loop_body_status)
  next
    case 2 then show ?thesis by (simp add: Let_def loop_body_status)
  next
    case 3 then show ?thesis by (simp add: Let_def loop_body_status)
  next
    case 4 then show ?thesis by (simp add: Let_def loop_body_status)
  next
    case 5 then show ?thesis by (simp add: Let_def loop_body_status)
  qed
qed

lemma unreachable_when_absent_or_out_of_range:
  assumes "status_code link = None \<or> (\<exists>c. status_code link = Some c \<and> (c < 100 \<or> 599 < c))"
  shows "unreachable_count (loop_body r link) = Some (nullish (unreachable_count r) 0 + 1)"
proof -
  have "status_hundreds (status_code link) \<notin> {Some 2, Some 3, Some 4, Some 5}"
    using assms by (auto simp: status_hundreds_def)
  then show ?thesis by (simp add: loop_body_unreachable)
qed

lemma status_hundreds_band:
  "(status_hundreds code = Some k) = (\<exists>c. code = Some c \<and> 100 * k \<le> c \<and> c \<le> 100 * k + 99)"
  by (cases code) (auto simp: status_hundreds_def)

lemma status_examples:
  "status_2xx_count (loop_body r (link\<lparr>status_code := Some 200\<rparr>)) = Some (nullish (status_2xx_count r) 0 + 1)"
  "status_3xx_count (loop_body r (link\<lparr>status_code := Some 301\<rparr>)) = Some (nullish (status_3xx_count r) 0 + 1)"
  "status_4xx_count (loop_body r (link\<lparr>status_code := Some 404\<rparr>)) = Some (nullish (status_4xx_count r) 0 + 1)"
  "status_5xx_count (loop_body r (link\<lparr>status_code := Some 503\<rparr>)) = Some (nullish (status_5xx_count r) 0 + 1)"
  "unreachable_count (loop_body r (link\<lparr>status_code := None\<rparr>)) = Some (nullish (unreachable_count r) 0 + 1)"
  by (simp_all add: loop_body_status status_hundreds_def)

lemma parse_status_counts:
  "status_2xx_count (parseFollowedLinks ls) =
     Some (length (filter (\<lambda>l. status_hundreds (status_code l) = Some 2) ls))"
  "status_3xx_count (parseFollowedLinks ls) =
     Some (length (filter (\<lambda>l. status_hundreds (status_code l) = Some 3) ls))"
  "status_4xx_count (parseFollowedLinks ls) =
     Some (length (filter (\<lambda>l. status_hundreds (status_code l) = Some 4) ls))"
  "status_5xx_count (parseFollowedLinks ls) =
     Some (length (filter (\<lambda>l. status_hundreds (status_code l) = Some 5) ls))"
  "unreachable_count (parseFollowedLinks ls) =
     Some (length (filter (\<lambda>l. status_hundreds (status_code l) \<notin> {Some 2, Some 3, Some 4, Some 5}) ls))"
      apply (rule parse_counter, rule loop_body_2xx, rule initial_simps)
     apply (rule parse_counter, rule loop_body_3xx, rule initial_simps)
    apply (rule parse_counter, rule loop_body_4xx, rule initial_simps)
   apply (rule parse_counter, rule loop_body_5xx, rule initial_simps)
  apply (rule parse_counter, rule loop_body_unreachable, rule initial_simps)
  done

lemma status_counts_partition:
  "length (filter (\<lambda>l. status_hundreds (status_code l) = Some 2) ls)
   + length (filter (\<lambda>l. status_hundreds (status_code l) = Some 3) ls)
   + length (filter (\<lambda>l. status_hundreds (status_code l) = Some 4) ls)
   + length (filter (\<lambda>l. status_hundreds (status_code l) = Some 5) ls)
   + length (filter (\<lambda>l. status_hundreds (status_code l) \<notin> {Some 2, Some 3, Some 4, Some 5}) ls)
   = length (ls :: SyntheticLinkResult list)"
  by (induction ls) auto


text \<open>
  Claim C4. One pass of the loop body, from any report \<open>r\<close> and on any link, increments
  exactly one of the five counters \<open>status_2xx_count\<close>, \<open>status_3xx_count\<close>,
  \<open>status_4xx_count\<close>, \<open>status_5xx_count\<close>, \<open>unreachable_count\<close> and leaves the other
  four as they were. The counter is chosen by the status code divided by 100, rounded
  down: quotient \<open>n\<close> means a code from \<open>100 * n\<close> to \<open>100 * n + 99\<close>; the quotients 2,
  3, 4, 5 choose the class counters and everything else \<open>unreachable_count\<close>. A link
  whose code is absent, below 100 or above 599 increments \<open>unreachable_count\<close>; the
  codes 200, 301, 404, 503 increment the 2xx, 3xx, 4xx, 5xx counters. Over a whole
  input each counter ends as the number of links that choose it, and the five counters
  add up to the number of links.
\<close>

theorem parseFollowedLinks_one_status_counter_per_link:
  "(let r' = loop_body r link;
        k = status_hundreds (status_code link);
        incremented = (\<lambda>f. f r' = Some (nullish (f r) 0 + 1));
        untouched = (\<lambda>f. f r' = f r);
        counters = [status_2xx_count, status_3xx_count, status_4xx_count,
                    status_5xx_count, unreachable_count]
    in length (filter incremented counters) = 1
       \<and> length (filter untouched counters) = 4
       \<and> incremented status_2xx_count = (k = Some 2)
       \<and> incremented status_3xx_count = (k = Some 3)
       \<and> incremented status_4xx_count = (k = Some 4)
       \<and> incremented status_5xx_count = (k = Some 5)
       \<and> incremented unreachable_count = (k \<notin> {Some 2, Some 3, Some 4, Some 5}))
   \<and> (status_hundreds (status_code link) = Some n) =
        (\<exists>c. status_code link = Some c \<and> 100 * n \<le> c \<and> c \<le> 100 * n + 99)
   \<and> ((status_code link = None \<or> (\<exists>c. status_code link = Some c \<and> (c < 100 \<or> 599 < c))) \<longrightarrow>
        unreachable_count (loop_body r link) = Some (nullish (unreachable_count r) 0 + 1))
   \<and> status_2xx_count (loop_body r (link\<lparr>status_code := Some 200\<rparr>)) = Some (nullish (status_2xx_count r) 0 + 1)
   \<and> status_3xx_count (loop_body r (link\<lparr>status_code := Some 301\<rparr>)) = Some (nullish (status_3xx_count r) 0 + 1)
   \<and> status_4xx_count (loop_body r (link\<lparr>status_code := Some 404\<rparr>)) = Some (nullish (status_4xx_count r) 0 + 1)
   \<and> status_5xx_count (loop_body r (link\<lparr>status_code := Some 503\<rparr>)) = Some (nullish (status_5xx_count r) 0 + 1)
   \<and> unreachable_count (loop_body r (link\<lparr>status_code := None\<rparr>)) = Some (nullish (unreachable_count r) 0 + 1)
   \<and> status_2xx_count (parseFollowedLinks ls) =
       Some (length (filter (\<lambda>l. status_hundreds (status_code l) = Some 2) ls))
   \<and> status_3xx_count (parseFollowedLinks ls) =
       Some (length (filter (\<lambda>l. status_hundreds (status_code l) = Some 3) ls))
   \<and> status_4xx_count (parseFollowedLinks ls) =
       Some (length (filter (\<lambda>l. status_hundreds (status_code l) = Some 4) ls))
   \<and> status_5xx_count (parseFollowedLinks ls) =
       Some (length (filter (\<lambda>l. status_hundreds (status_code l) = Some 5) ls))
   \<and> unreachable_count (parseFollowedLinks ls) =
       Some (length (filter (\<lambda>l. status_hundreds (status_code l) \<notin> {Some 2, Some 3, Some 4, Some 5}) ls))
   \<and> (\<exists>c2 c3 c4 c5 u.
         status_2xx_count (parseFollowedLinks ls) = Some c2
       \<and> status_3xx_count (parseFollowedLinks ls) = Some c3
       \<and> status_4xx_count (parseFollowedLinks ls) = Some c4
       \<and> status_5xx_count (parseFollowedLinks ls) = Some c5
       \<and> unreachable_count (parseFollowedLinks ls) = Some u
       \<and> c2 + c3 + c4 + c5 + u = length ls)"
proof -
  have whole: "\<exists>c2 c3 c4 c5 u.
         status_2xx_count (parseFollowedLinks ls) = Some c2
       \<and> status_3xx_count (parseFollowedLinks ls) = Some c3
       \<and> status_4xx_count (parseFollowedLinks ls) = Some c4
       \<and> status_5xx_count (parseFollowedLinks ls) = Some c5
       \<and> unreachable_count (parseFollowedLinks ls) = Some u
       \<and> c2 + c3 + c4 + c5 + u = length ls"
    using status_counts_partition [of ls] by (simp add: parse_status_counts)
  have out: "(status_code link = None \<or> (\<exists>c. status_code link = Some c \<and> (c < 100 \<or> 599 < c))) \<longrightarrow>
        unreachable_count (loop_body r link) = Some (nullish (unreachable_count r) 0 + 1)"
    using unreachable_when_absent_or_out_of_range [of link r] by blast
  show ?thesis
    by (intro conjI one_status_counter_step status_hundreds_band out status_examples
        parse_status_counts whole)
qed


theorem parseFollowedLinks_one_status_counter_per_link_witness:
  "(status_code (sample_result (Some 99) False False) = None
      \<or> (\<exists>c. status_code (sample_result (Some 99) False False) = Some c \<and> (c < 100 \<or> 599 < c)))
   \<and> unreachable_count (loop_body initial_result (sample_result (Some 99) False False)) = Some 1
   \<and> unreachable_count (loop_body initial_result (sample_result None False False)) = Some 1
   \<and> unreachable_count (loop_body initial_result (sample_result (Some 600) False False)) = Some 1"
  using parseFollowedLinks_one_status_counter_per_link [where r = initial_result and link = "sample_result (Some 99) False False" and ls = "[]" and n = 0]
    parseFollowedLinks_one_status_counter_per_link [where r = initial_result and link = "sample_result None False False" and ls = "[]" and n = 0]
    parseFollowedLinks_one_status_counter_per_link [where r = initial_result and link = "sample_result (Some 600) False False" and ls = "[]" and n = 0]
  by (simp add: sample_result_def initial_simps)

subsection \<open>\<^verbatim>\<open>shuffleAndTruncate\<close>\<close>

text \<open>\<^verbatim>\<open>slice(0, end)\<close> keeps a prefix; a negative \<open>end\<close> drops that many elements from the end.\<close>

lemma js_slice_from_start:
  "0 \<le> e \<Longrightarrow> js_slice xs 0 e = take (nat e) xs"
  by (simp add: js_slice_def Let_def min_def max_def)

lemma js_slice_negative_end:
  assumes "e < 0"
  shows "js_slice xs 0 e = take (length xs - nat (- e)) xs"
proof -
  have "nat (max (max (int (length xs) + e) 0 - 0) 0) = length xs - nat (- e)"
    using assms by linarith
  then show ?thesis
    using assms by (simp add: js_slice_def Let_def)
qed

lemma sequential_take:
  "1 \<le> limit \<Longrightarrow> shuffleAndTruncate engine_sort draws links limit SEQUENTIAL = take (nat (limit - 1)) links"
  by (simp add: shuffleAndTruncate_def js_slice_from_start)

text \<open>
  Claim C3. For every list of links and every limit of at least 1, with the order
  \<open>SEQUENTIAL\<close> the result is the prefix of the input with \<open>limit - 1\<close> elements, or the
  whole input when it is shorter: its length is \<open>min (limit - 1) (length links)\<close>, and
  the elements keep their order.
\<close>

theorem shuffleAndTruncate_sequential_prefix:
  assumes "1 \<le> limit"
  shows "shuffleAndTruncate engine_sort draws links limit SEQUENTIAL = take (nat (limit - 1)) links
    \<and> prefix (shuffleAndTruncate engine_sort draws links limit SEQUENTIAL) links
    \<and> int (length (shuffleAndTruncate engine_sort draws links limit SEQUENTIAL)) = min (limit - 1) (int (length links))"
  using assms by (auto simp: sequential_take take_is_prefix)

theorem shuffleAndTruncate_sequential_prefix_witness:
  "(1::int) \<le> 3 \<and> shuffleAndTruncate insertion_engine [] [10, 20, 30 :: nat] 3 SEQUENTIAL = [10, 20]
   \<and> shuffleAndTruncate insertion_engine [] [10, 20, 30 :: nat] 1 SEQUENTIAL = []
   \<and> shuffleAndTruncate insertion_engine [] [10, 20, 30 :: nat] 9 SEQUENTIAL = [10, 20, 30]"
  using shuffleAndTruncate_sequential_prefix [of 3 insertion_engine "[]" "[10, 20, 30 :: nat]"]
    shuffleAndTruncate_sequential_prefix [of 1 insertion_engine "[]" "[10, 20, 30 :: nat]"]
    shuffleAndTruncate_sequential_prefix [of 9 insertion_engine "[]" "[10, 20, 30 :: nat]"]
  by simp

lemma shuffle_nonpositive_limit:
  "shuffleAndTruncate engine_sort draws links (- int n) order =
     take (length (if order = RANDOM then engine_sort draws links else links) - (n + 1))
       (if order = RANDOM then engine_sort draws links else links)"
  by (simp add: shuffleAndTruncate_def Let_def js_slice_negative_end nat_add_distrib)

lemma shuffle_limit_zero:
  "shuffleAndTruncate engine_sort draws links 0 SEQUENTIAL = butlast links"
  using shuffle_nonpositive_limit [where n = 0 and order = SEQUENTIAL and links = links]
  by (simp add: butlast_conv_take)

lemma shuffle_limit_one: "shuffleAndTruncate engine_sort draws links 1 order = []"
  by (simp add: shuffleAndTruncate_def js_slice_from_start)

lemma shuffle_limit_above_length:
  "shuffleAndTruncate engine_sort draws links (int (length links) + 1 + int n) SEQUENTIAL = links"
  by (simp add: shuffleAndTruncate_def js_slice_from_start)

text \<open>
  Claim C2 does not hold of the source for limits of 0 and below. The cut point
  \<open>limit - 1\<close> is then negative, and \<^verbatim>\<open>slice\<close> counts a negative end from the end of the
  array: with limit 0 the result is the input without its last element (\<open>[a, b]\<close> for
  \<open>[a, b, c]\<close>), with limit \<open>- n\<close> the input without its last \<open>n + 1\<close> elements, in both
  orders. Only the limit 1 gives the empty result for every input. The second half of
  the claim holds: a limit above the length of the input keeps all of it.
\<close>

theorem shuffleAndTruncate_nonpositive_limit_keeps_links:
  "shuffleAndTruncate engine_sort draws [a, b, c] 0 SEQUENTIAL = [a, b]
   \<and> shuffleAndTruncate engine_sort draws [a, b, c] (- 1) SEQUENTIAL = [a]
   \<and> shuffleAndTruncate engine_sort draws links 0 SEQUENTIAL = butlast links
   \<and> shuffleAndTruncate engine_sort draws links (- int n) order =
       take (length (if order = RANDOM then engine_sort draws links else links) - (n + 1))
         (if order = RANDOM then engine_sort draws links else links)
   \<and> shuffleAndTruncate engine_sort draws links 1 order = []
   \<and> shuffleAndTruncate engine_sort draws links (int (length links) + 1 + int n) SEQUENTIAL = links"
proof -
  have ex0: "shuffleAndTruncate engine_sort draws [a, b, c] 0 SEQUENTIAL = [a, b]"
    by (simp add: shuffle_limit_zero)
  have ex1: "shuffleAndTruncate engine_sort draws [a, b, c] (- 1) SEQUENTIAL = [a]"
    using shuffle_nonpositive_limit [where n = 1 and order = SEQUENTIAL and links = "[a, b, c]"]
    by simp
  show ?thesis
    by (intro conjI ex0 ex1 shuffle_limit_zero shuffle_nonpositive_limit shuffle_limit_one
        shuffle_limit_above_length)
qed

lemma pow2_mod3: "(2::nat) ^ k mod 3 = 1 \<or> (2::nat) ^ k mod 3 = 2"
proof (induction k)
  case 0
  show ?case by simp
next
  case (Suc k)
  have "(2::nat) ^ Suc k mod 3 = (2 * (2 ^ k mod 3)) mod 3"
    by (simp add: mod_mult_right_eq)
  with Suc show ?case by auto
qed

lemma three_times_not_power_of_two: "3 * (m::nat) \<noteq> 2 ^ k"
proof
  assume "3 * m = 2 ^ k"
  then have "(2::nat) ^ k mod 3 = 0" by (metis mod_mult_self1_is_0)
  with pow2_mod3 [of k] show False by simp
qed

lemma insertion_engine_first_positions:
  "map (\<lambda>y. length (filter (\<lambda>draws.
            take 1 (shuffleAndTruncate insertion_engine draws [1, 2, 3 :: nat] 4 RANDOM) = [y])
          (List.n_lists 3 [False, True]))) [1, 2, 3] = [4, 2, 2]"
  by code_simp

text \<open>
  Claim C1 does not hold of the source. The source shuffles with
  \<^verbatim>\<open>sort(() => Math.random() - 0.5)\<close>. Whatever algorithm the engine sorts with, if it calls
  the comparator at most \<open>k\<close> times, its result is a function of the first \<open>k\<close> draws, and
  the \<open>2 ^ k\<close> sequences of \<open>k\<close> fair draws are equally likely. On three links with a
  limit that keeps them all, the number of those sequences that put a given link \<open>x\<close>
  first is therefore never a third of them: no link is first with probability \<open>1/3\<close>, as
  a uniform shuffle needs. With the insertion sort as the engine, the three links are
  first in 4, 2 and 2 of the 8 sequences of three draws: probabilities \<open>1/2\<close>, \<open>1/4\<close>,
  \<open>1/4\<close>.
\<close>

theorem shuffleAndTruncate_random_not_uniform:
  "length (List.n_lists k [False, True]) = 2 ^ k
   \<and> 3 * length (filter (\<lambda>draws.
            take 1 (shuffleAndTruncate engine_sort draws [a, b, c] 4 RANDOM) = [x])
          (List.n_lists k [False, True])) \<noteq> 2 ^ k
   \<and> map (\<lambda>y. length (filter (\<lambda>draws.
            take 1 (shuffleAndTruncate insertion_engine draws [1, 2, 3 :: nat] 4 RANDOM) = [y])
          (List.n_lists 3 [False, True]))) [1, 2, 3] = [4, 2, 2]"
proof -
  have "length (List.n_lists k [False, True]) = 2 ^ k"
    by (simp add: length_n_lists numeral_2_eq_2)
  then show ?thesis
    by (simp only: three_times_not_power_of_two insertion_engine_first_positions
        not_False_eq_True simp_thms)
qed

text \<open>
  Claim C9. In the store model, for every store, every valid address \<open>links\<close> of the
  input array, every limit and both orders: after the call the array at \<open>links\<close> is what
  it was before (so is every array that existed before), the result is a new array at
  another address, and its contents are those the function on values computes.
\<close>

theorem shuffleAndTruncate_leaves_input_unchanged:
  assumes "links < length h"
  shows "(case shuffleAndTruncate_store engine_sort draws h links limit order of
            (result, h') \<Rightarrow>
              h' ! links = h ! links
            \<and> take (length h) h' = h
            \<and> result \<noteq> links
            \<and> result < length h'
            \<and> h' ! result = shuffleAndTruncate engine_sort draws (h ! links) limit order)"
  using assms
  by (simp add: shuffleAndTruncate_store_def alloc_def shuffleAndTruncate_def Let_def nth_append)

theorem shuffleAndTruncate_leaves_input_unchanged_witness:
  "(1::nat) < length [[7], [1, 2, 3 :: nat]]
   \<and> shuffleAndTruncate_store insertion_engine [True, False, False] [[7], [1, 2, 3 :: nat]] 1 3 RANDOM
       = (3, [[7], [1, 2, 3], [2, 3, 1], [2, 3]])
   \<and> shuffleAndTruncate_store insertion_engine [] [[7], [1, 2, 3 :: nat]] 1 3 SEQUENTIAL
       = (3, [[7], [1, 2, 3], [1, 2, 3], [1, 2]])"
  using shuffleAndTruncate_leaves_input_unchanged
      [of 1 "[[7], [1, 2, 3 :: nat]]" insertion_engine "[True, False, False]" 3 RANDOM]
    shuffleAndTruncate_leaves_input_unchanged
      [of 1 "[[7], [1, 2, 3 :: nat]]" insertion_engine "[]" 3 SEQUENTIAL]
  by (simp add: shuffleAndTruncate_store_def alloc_def insertion_engine_def js_slice_def)

subsection \<open>\<^verbatim>\<open>isHTTPResponse\<close>\<close>

text \<open>
  Claim C10. The guard never throws, and it answers true exactly for an object (a
  non-null value whose \<^verbatim>\<open>typeof\<close> is \<^verbatim>\<open>'object'\<close>) on which \<^verbatim>\<open>'status'\<close> is found.
  So an object of any class, an Error included, that carries \<^verbatim>\<open>status\<close> is taken for
  a response, and \<^verbatim>\<open>null\<close> never is.
\<close>

theorem isHTTPResponse_iff_object_with_status:
  "isHTTPResponse response =
     Inr (case response of JSObject c ps \<Rightarrow> ''status'' \<in> set ps | _ \<Rightarrow> False)
   \<and> isHTTPResponse (JSObject ErrorClass (''status'' # ps')) = Inr True
   \<and> isHTTPResponse (JSObject c' ps'') = Inr (''status'' \<in> set ps'')
   \<and> isHTTPResponse JSNull = Inr False"
  by (cases response) (simp_all add: isHTTPResponse_def)

end
